theory Spec2Isabelle
  imports Main
begin

section \<open>The roster-file analyser of \<open>dom/utils/csv_preview.py\<close>\<close>

text \<open>
  The module reads a delimiter-separated roster file through Python's \<open>csv.reader\<close>,
  counts its records, samples them to infer a column count and a header row, renders a
  preview with \<open>rich\<close>, and validates a column reference typed by the user.

  Python's \<open>str\<close> is modelled by \<open>string\<close>; a \<open>char\<close> stands for the code point with
  the same number, so the model covers text whose code points lie below 256. The
  built-ins the module calls (\<open>str.strip\<close>, \<open>str.lstrip\<close>, \<open>str.lower\<close>,
  \<open>str.join\<close>, \<open>in\<close>, \<open>int\<close>, \<open>str\<close>, \<open>max\<close>) are written out on that range.
  Python's \<open>int\<close> is \<open>int\<close>. An exception is a value \<open>Inl e\<close> of a sum type.
\<close>

subsection \<open>Exceptions\<close>

datatype error =
    ValueError
  | IndexError
  | TypeError
  | OSError
  | UnicodeDecodeError
  | CsvError
  | MarkupError

subsection \<open>String built-ins\<close>

definition isspace :: "char \<Rightarrow> bool" where
  \<comment> \<open>\<open>str.isspace\<close> on one character: U+0009..U+000D, U+001C..U+0020, U+0085, U+00A0.\<close>
  "isspace c =
     (let n = (of_char c :: nat)
      in (9 \<le> n \<and> n \<le> 13) \<or> (28 \<le> n \<and> n \<le> 32) \<or> n = 133 \<or> n = 160)"

definition str_strip :: "string \<Rightarrow> string" where
  \<comment> \<open>\<open>s.strip()\<close>: leading and trailing whitespace removed.\<close>
  "str_strip s = rev (dropWhile isspace (rev (dropWhile isspace s)))"

definition str_lstrip :: "string \<Rightarrow> string \<Rightarrow> string" where
  \<comment> \<open>\<open>s.lstrip(chars)\<close>: every leading character that occurs in \<open>chars\<close> removed.\<close>
  "str_lstrip chars s = dropWhile (\<lambda>c. c \<in> set chars) s"

definition lower_char :: "char \<Rightarrow> char" where
  "lower_char c =
     (let n = (of_char c :: nat)
      in if (65 \<le> n \<and> n \<le> 90) \<or> (192 \<le> n \<and> n \<le> 222 \<and> n \<noteq> 215)
         then char_of (n + 32) else c)"

definition str_lower :: "string \<Rightarrow> string" where
  "str_lower s = map lower_char s"

fun str_join :: "string \<Rightarrow> string list \<Rightarrow> string" where
  "str_join sep [] = []"
| "str_join sep [x] = x"
| "str_join sep (x # y # ys) = x @ sep @ str_join sep (y # ys)"

fun starts_with :: "string \<Rightarrow> string \<Rightarrow> bool" where
  "starts_with [] s = True"
| "starts_with (k # ks) [] = False"
| "starts_with (k # ks) (c # cs) = (k = c \<and> starts_with ks cs)"

fun str_contains :: "string \<Rightarrow> string \<Rightarrow> bool" where
  \<comment> \<open>\<open>keyword in s\<close>: \<open>keyword\<close> occurs in \<open>s\<close> as a contiguous substring.\<close>
  "str_contains k [] = (k = [])"
| "str_contains k (c # cs) = (starts_with k (c # cs) \<or> str_contains k cs)"

subsection \<open>Integers and text\<close>

definition digit_char :: "nat \<Rightarrow> char" where
  "digit_char d = char_of (48 + d)"

fun str_nat :: "nat \<Rightarrow> string" where
  "str_nat n = (if n < 10 then [digit_char n] else str_nat (n div 10) @ [digit_char (n mod 10)])"

declare str_nat.simps [simp del]

definition str_int :: "int \<Rightarrow> string" where
  \<comment> \<open>\<open>str(i)\<close>, as the f-strings of the module format an integer (without the
      interpreter's limit on the digits of a printed integer).\<close>
  "str_int i = (if i < 0 then CHR ''-'' # str_nat (nat (- i)) else str_nat (nat i))"

definition int_space :: "char \<Rightarrow> bool" where
  \<comment> \<open>The whitespace \<open>int()\<close> skips around a literal: U+0009..U+000D, U+0020, U+0085, U+00A0.\<close>
  "int_space c =
     (let n = (of_char c :: nat)
      in (9 \<le> n \<and> n \<le> 13) \<or> n = 32 \<or> n = 133 \<or> n = 160)"

definition is_digit :: "char \<Rightarrow> bool" where
  "is_digit c = (let n = (of_char c :: nat) in 48 \<le> n \<and> n \<le> 57)"

definition digit_val :: "char \<Rightarrow> int" where
  "digit_val c = int (of_char c) - 48"

fun double_underscore :: "string \<Rightarrow> bool" where
  "double_underscore (a # b # cs) =
     ((a = CHR ''_'' \<and> b = CHR ''_'') \<or> double_underscore (b # cs))"
| "double_underscore cs = False"

definition py_int :: "nat \<Rightarrow> string \<Rightarrow> error + int" where
  \<comment> \<open>\<open>int(s)\<close> in base 10: optional whitespace, an optional sign, decimal digits with
      single underscores between them, optional whitespace. \<open>max_str_digits\<close> is the
      interpreter's limit on the number of digits (\<open>sys.get_int_max_str_digits()\<close>,
      4300 by default, 0 for no limit; it applies above 640 digits).\<close>
  "py_int max_str_digits s =
     (let t = dropWhile int_space s;
          negative = (case t of c # _ \<Rightarrow> c = CHR ''-'' | [] \<Rightarrow> False);
          u = (case t of c # cs \<Rightarrow> if c = CHR ''+'' \<or> c = CHR ''-'' then cs else t | [] \<Rightarrow> t);
          body = takeWhile (\<lambda>c. is_digit c \<or> c = CHR ''_'') u;
          rest = dropWhile (\<lambda>c. is_digit c \<or> c = CHR ''_'') u;
          digits = filter is_digit body
      in if body = [] \<or> hd body = CHR ''_'' \<or> last body = CHR ''_'' \<or> double_underscore body
         then Inl ValueError
         else if dropWhile int_space rest \<noteq> [] then Inl ValueError
         else if 640 < length digits \<and> 0 < max_str_digits \<and> max_str_digits < length digits
         then Inl ValueError
         else let v = foldl (\<lambda>acc c. 10 * acc + digit_val c) 0 digits
              in Inr (if negative then - v else v))"

fun max_of :: "int list \<Rightarrow> error + int" where
  \<comment> \<open>\<open>max(...)\<close> over the values a generator yields; an empty one raises.\<close>
  "max_of [] = Inl ValueError"
| "max_of (x # xs) = Inr (fold max xs x)"

fun enumerate_from :: "int \<Rightarrow> 'a list \<Rightarrow> (int \<times> 'a) list" where
  "enumerate_from i [] = []"
| "enumerate_from i (x # xs) = (i, x) # enumerate_from (i + 1) xs"

definition py_range :: "int \<Rightarrow> int \<Rightarrow> int list" where
  \<comment> \<open>\<open>range(a, b)\<close>\<close>
  "py_range a b = [a .. b - 1]"

subsection \<open>The file and its reader\<close>

text \<open>
  \<open>file_path.open(newline="", encoding="utf-8")\<close> followed by
  \<open>csv.reader(f, delimiter=delimiter)\<close> either fails to open the file or iterates over
  the records of the file, each a list of raw fields, and then stops or raises (a byte
  sequence that is not UTF-8, a malformed record, a delimiter that is not one character).
  The file system and the \<open>csv\<close> library are a parameter \<open>fs\<close> of every operation: what
  the reader yields for a path and a delimiter.
\<close>

datatype csv_input =
    OpenError error
  | Reader (records: "string list list") (failure: "error option")

type_synonym file_system = "string \<Rightarrow> string \<Rightarrow> csv_input"

definition path_name :: "string \<Rightarrow> string" where
  \<comment> \<open>\<open>file_path.name\<close>: the final component of a (normalised, POSIX) path.\<close>
  "path_name p =
     (if p = ''.'' then [] else rev (takeWhile (\<lambda>c. c \<noteq> CHR ''/'') (rev p)))"

subsection \<open>The console\<close>

text \<open>
  The module prints through one \<open>rich\<close> console. \<open>console.print\<close> takes a markup
  string or a table, and raises when it cannot render it. The console is a parameter of
  the operations that print: a function from what is printed to the exception raised, if
  any. An operation returns what it printed next to its value.
\<close>

record column =
  col_header :: string
  col_style :: string
  col_width :: "int option"

record table =
  title :: string
  caption :: string
  show_header :: bool
  header_style :: string
  columns :: "column list"
  table_rows :: "string list list"

datatype renderable = Markup string | Rendered table

definition add_column :: "string \<Rightarrow> string \<Rightarrow> int option \<Rightarrow> table \<Rightarrow> table" where
  "add_column h st w t =
     t\<lparr>columns := columns t @ [\<lparr>col_header = h, col_style = st, col_width = w\<rparr>]\<rparr>"

definition add_row :: "string list \<Rightarrow> table \<Rightarrow> table" where
  "add_row cells t = t\<lparr>table_rows := table_rows t @ [cells]\<rparr>"

type_synonym console = "renderable \<Rightarrow> error option"

text \<open>
  \<open>rich_print\<close> is the console of the \<open>rich\<close> library as far as its markup tags go
  (\<open>rich.markup.render\<close>). A tag is \<open>[\<close>, one of \<open>a\<close>..\<open>z\<close>, \<open>#\<close>, \<open>/\<close>, \<open>@\<close>, then
  any characters but \<open>[\<close> up to the next \<open>]\<close>; an odd number of backslashes before it
  makes it plain text. The name of a tag is its text before \<open>=\<close>. An opening tag is put
  on a stack; \<open>[/name]\<close> takes the nearest open tag of that name off the stack and
  \<open>[/]\<close> the last one, and either raises \<open>MarkupError\<close> when there is none. Names are
  compared stripped and lower-cased: that \<open>rich\<close> also identifies two spellings of one
  style (\<open>bold red\<close>, \<open>red bold\<close>) and evaluates the parameters of \<open>@\<close> tags is not
  modelled. A table is rendered cell by cell, its title, caption and column headers too.
\<close>

datatype scan_state =
    Outside nat
  | Opened nat
  | Inside nat string nat

definition tag_start :: "char \<Rightarrow> bool" where
  "tag_start c =
     (let n = (of_char c :: nat)
      in (97 \<le> n \<and> n \<le> 122) \<or> c = CHR ''#'' \<or> c = CHR ''/'' \<or> c = CHR ''@'')"

definition style_key :: "string \<Rightarrow> string" where
  "style_key name = str_lower (str_strip name)"

definition apply_tag :: "string \<Rightarrow> string list \<Rightarrow> error + string list" where
  \<comment> \<open>The stack of open tags, the last one opened first.\<close>
  "apply_tag tag_text stack =
     (case takeWhile (\<lambda>c. c \<noteq> CHR ''='') tag_text of
        CHR ''/'' # closed \<Rightarrow>
          if str_strip closed \<noteq> []
          then (if style_key (str_strip closed) \<in> set stack
                then Inr (remove1 (style_key (str_strip closed)) stack)
                else Inl MarkupError)
          else (case stack of [] \<Rightarrow> Inl MarkupError | _ # below \<Rightarrow> Inr below)
      | name \<Rightarrow> Inr (style_key name # stack))"

fun scan_markup :: "scan_state \<Rightarrow> string list \<Rightarrow> string \<Rightarrow> error option" where
  \<comment> \<open>\<open>Outside b\<close>: in plain text after \<open>b\<close> backslashes; \<open>Opened b\<close>: after a \<open>[\<close> that
      \<open>b\<close> backslashes precede; \<open>Inside b text t\<close>: in a tag with \<open>text\<close> read so far,
      which ends in \<open>t\<close> backslashes.\<close>
  "scan_markup st stack [] = None"
| "scan_markup (Outside b) stack (c # cs) =
     (if c = CHR 0x5C then scan_markup (Outside (Suc b)) stack cs
      else if c = CHR ''['' then scan_markup (Opened b) stack cs
      else scan_markup (Outside 0) stack cs)"
| "scan_markup (Opened b) stack (c # cs) =
     (if tag_start c then scan_markup (Inside b [c] 0) stack cs
      else if c = CHR ''['' then scan_markup (Opened 0) stack cs
      else if c = CHR 0x5C then scan_markup (Outside 1) stack cs
      else scan_markup (Outside 0) stack cs)"
| "scan_markup (Inside b text t) stack (c # cs) =
     (if c = CHR '']''
      then (if odd b then scan_markup (Outside 0) stack cs
            else (case apply_tag text stack of
                    Inl e \<Rightarrow> Some e
                  | Inr stack' \<Rightarrow> scan_markup (Outside 0) stack' cs))
      else if c = CHR ''['' then scan_markup (Opened t) stack cs
      else if c = CHR 0x5C then scan_markup (Inside b (text @ [c]) (Suc t)) stack cs
      else scan_markup (Inside b (text @ [c]) 0) stack cs)"

definition render_markup :: "string \<Rightarrow> error option" where
  "render_markup markup = scan_markup (Outside 0) [] markup"

fun first_error :: "error option list \<Rightarrow> error option" where
  "first_error [] = None"
| "first_error (None # rs) = first_error rs"
| "first_error (Some e # rs) = Some e"

definition rich_print :: console where
  "rich_print r =
     (case r of
        Markup markup \<Rightarrow> render_markup markup
      | Rendered t \<Rightarrow>
          first_error (map render_markup
            (title t # caption t # map col_header (columns t) @ concat (table_rows t))))"

subsection \<open>Row Reader\<close>

definition limit_reached :: "int option \<Rightarrow> int \<Rightarrow> bool" where
  \<comment> \<open>\<open>max_rows and idx >= max_rows\<close>: \<open>None\<close> and \<open>0\<close> are both false in Python.\<close>
  "limit_reached max_rows idx =
     (case max_rows of None \<Rightarrow> False | Some m \<Rightarrow> m \<noteq> 0 \<and> idx \<ge> m)"

fun read_loop ::
  "int option \<Rightarrow> int \<Rightarrow> string list list \<Rightarrow> error option \<Rightarrow> string list list
     \<Rightarrow> error + string list list" where
  "read_loop max_rows idx [] ending rows =
     (case ending of None \<Rightarrow> Inr rows | Some e \<Rightarrow> Inl e)"
| "read_loop max_rows idx (row # rest) ending rows =
     (if limit_reached max_rows idx then Inr rows
      else read_loop max_rows (idx + 1) rest ending (rows @ [map str_strip row]))"

definition read_csv_rows ::
  "file_system \<Rightarrow> string \<Rightarrow> string \<Rightarrow> int option \<Rightarrow> error + string list list" where
  "read_csv_rows fs file_path delimiter max_rows =
     (case fs file_path delimiter of
        OpenError e \<Rightarrow> Inl e
      | Reader recs ending \<Rightarrow> read_loop max_rows 0 recs ending [])"

subsection \<open>Row Counter\<close>

fun count_loop :: "string list list \<Rightarrow> error option \<Rightarrow> int \<Rightarrow> error + int" where
  "count_loop [] ending count = (case ending of None \<Rightarrow> Inr count | Some e \<Rightarrow> Inl e)"
| "count_loop (row # rest) ending count = count_loop rest ending (count + 1)"

definition count_csv_rows :: "file_system \<Rightarrow> string \<Rightarrow> string \<Rightarrow> error + int" where
  "count_csv_rows fs file_path delimiter =
     (case fs file_path delimiter of
        OpenError e \<Rightarrow> Inl e
      | Reader recs ending \<Rightarrow> count_loop recs ending 0)"

subsection \<open>Header Detector\<close>

definition header_keywords :: "string list" where
  "header_keywords =
     [''id'', ''name'', ''team'', ''affiliation'', ''organization'', ''country'',
      ''university'', ''college'', ''school'', ''institution'']"

definition detect_header_row :: "file_system \<Rightarrow> string \<Rightarrow> string \<Rightarrow> error + bool" where
  "detect_header_row fs file_path delimiter =
     (case read_csv_rows fs file_path delimiter (Some 5) of
        Inl e \<Rightarrow> Inl e
      | Inr rows \<Rightarrow>
          if length rows < 2 then Inr False
          else (case rows of
                  [] \<Rightarrow> Inl IndexError
                | first_row # _ \<Rightarrow>
                    let first_row_lower = map str_lower first_row
                    in Inr (list_ex (\<lambda>keyword. str_contains keyword (str_join '' '' first_row_lower))
                              header_keywords)))"

subsection \<open>Auto Range Detector\<close>

definition auto_detect_data_range ::
  "file_system \<Rightarrow> string \<Rightarrow> string \<Rightarrow> error + (int \<times> int)" where
  "auto_detect_data_range fs file_path delimiter =
     (case count_csv_rows fs file_path delimiter of
        Inl e \<Rightarrow> Inl e
      | Inr total_rows \<Rightarrow>
          (case detect_header_row fs file_path delimiter of
             Inl e \<Rightarrow> Inl e
           | Inr has_header \<Rightarrow>
               let start_row = (if has_header then 2 else 1);
                   end_row = total_rows
               in Inr (start_row, end_row)))"

subsection \<open>Column Counter\<close>

definition get_column_count :: "file_system \<Rightarrow> string \<Rightarrow> string \<Rightarrow> error + int" where
  "get_column_count fs file_path delimiter =
     (case read_csv_rows fs file_path delimiter (Some 5) of
        Inl e \<Rightarrow> Inl e
      | Inr rows \<Rightarrow>
          if rows = [] then Inr 0
          else max_of (map (\<lambda>row. int (length row)) rows))"

subsection \<open>Column Index Validator\<close>

definition out_of_range_markup :: "int \<Rightarrow> int \<Rightarrow> string" where
  \<comment> \<open>\<open>f"[red]Column {col_idx} is out of range (1-{num_columns})[/red]"\<close>\<close>
  "out_of_range_markup col_idx num_columns =
     ''[red]Column '' @ str_int col_idx @ '' is out of range (1-'' @ str_int num_columns
       @ '')[/red]''"

definition invalid_number_markup :: "string \<Rightarrow> string" where
  \<comment> \<open>\<open>f"[red]Invalid column number: {column_str}[/red]"\<close>: the user's text goes into
      the markup as it is.\<close>
  "invalid_number_markup column_str = ''[red]Invalid column number: '' @ column_str @ ''[/red]''"

definition validate_column_index ::
  "console \<Rightarrow> nat \<Rightarrow> string \<Rightarrow> int \<Rightarrow> error + (int option \<times> renderable list)" where
  \<comment> \<open>The result is the returned value with what the call printed on the console. The
      handler catches \<open>ValueError\<close> alone, from \<open>int\<close> or from the \<open>print\<close> inside the
      \<open>try\<close>; what the \<open>print\<close> of the handler raises propagates.\<close>
  "validate_column_index console max_str_digits column_str num_columns =
     (let column_str = str_lstrip ''$'' (str_strip column_str);
          handler =
            (case console (Markup (invalid_number_markup column_str)) of
               Some e \<Rightarrow> Inl e
             | None \<Rightarrow> Inr (None, [Markup (invalid_number_markup column_str)]))
      in case py_int max_str_digits column_str of
           Inr col_idx \<Rightarrow>
             if 1 \<le> col_idx \<and> col_idx \<le> num_columns then Inr (Some col_idx, [])
             else (case console (Markup (out_of_range_markup col_idx num_columns)) of
                     None \<Rightarrow> Inr (None, [Markup (out_of_range_markup col_idx num_columns)])
                   | Some ValueError \<Rightarrow> handler
                   | Some e \<Rightarrow> Inl e)
         | Inl ValueError \<Rightarrow> handler
         | Inl e \<Rightarrow> Inl e)"

subsection \<open>Preview Renderer\<close>

definition pad_row :: "int \<Rightarrow> string list \<Rightarrow> string list" where
  \<comment> \<open>\<open>row + [""] * (num_columns - len(row))\<close>\<close>
  "pad_row num_columns row = row @ replicate (nat (num_columns - int (length row))) []"

definition header_table :: "bool \<Rightarrow> int \<Rightarrow> string list list \<Rightarrow> table \<Rightarrow> table" where
  \<comment> \<open>The branch \<open>if has_header and rows\<close>: the first row labels the columns.\<close>
  "header_table show_column_numbers num_columns rows t =
     (let first_row = hd rows;
          t1 = fold (\<lambda>(col_idx, header_name).
                   add_column
                     (if show_column_numbers
                      then header_name @ '' (Col '' @ str_int (col_idx + 1) @ '')''
                      else header_name)
                     (if col_idx = 0 then ''green'' else [])
                     None)
                 (enumerate_from 0 first_row) t;
          t2 = fold (\<lambda>col_idx.
                   add_column
                     (if show_column_numbers then ''Col '' @ str_int (col_idx + 1)
                      else ''Column '' @ str_int (col_idx + 1))
                     []
                     None)
                 (py_range (int (length first_row)) num_columns) t1
      in fold (\<lambda>(row_idx, row). add_row (str_int row_idx # pad_row num_columns row))
           (enumerate_from 2 (drop 1 rows)) t2)"

definition plain_table :: "bool \<Rightarrow> int \<Rightarrow> string list list \<Rightarrow> table \<Rightarrow> table" where
  \<comment> \<open>The other branch: generic column labels, every row shown.\<close>
  "plain_table show_column_numbers num_columns rows t =
     (let t1 = (if show_column_numbers
                then fold (\<lambda>col_idx.
                       add_column (''Col '' @ str_int (col_idx + 1))
                         (if col_idx = 0 then ''green'' else []) None)
                     (py_range 0 num_columns) t
                else fold (\<lambda>col_idx.
                       add_column (''Column '' @ str_int (col_idx + 1)) [] None)
                     (py_range 0 num_columns) t)
      in fold (\<lambda>(row_idx, row). add_row (str_int row_idx # pad_row num_columns row))
           (enumerate_from 1 rows) t1)"

definition preview_csv ::
  "console \<Rightarrow> file_system \<Rightarrow> string \<Rightarrow> string \<Rightarrow> int \<Rightarrow> bool \<Rightarrow> bool option
     \<Rightarrow> error + (bool \<times> renderable list)" where
  \<comment> \<open>The result is the returned header flag with what the call printed on the console.\<close>
  "preview_csv console fs file_path delimiter max_rows show_column_numbers has_header =
     (case read_csv_rows fs file_path delimiter (Some max_rows) of
        Inl e \<Rightarrow> Inl e
      | Inr rows \<Rightarrow>
     (case count_csv_rows fs file_path delimiter of
        Inl e \<Rightarrow> Inl e
      | Inr total_rows \<Rightarrow>
     (case (case has_header of
              None \<Rightarrow> detect_header_row fs file_path delimiter
            | Some h \<Rightarrow> Inr h) of
        Inl e \<Rightarrow> Inl e
      | Inr has_header \<Rightarrow>
          if rows = []
          then (case console (Markup ''[yellow]Warning: CSV file is empty[/yellow]'') of
                  Some e \<Rightarrow> Inl e
                | None \<Rightarrow> Inr (False, [Markup ''[yellow]Warning: CSV file is empty[/yellow]'']))
          else
            (case max_of (map (\<lambda>row. int (length row)) rows) of
               Inl e \<Rightarrow> Inl e
             | Inr num_columns \<Rightarrow>
                 let t0 = \<lparr>title = ''CSV Preview: '' @ path_name file_path,
                           caption = ''Showing '' @ str_int (int (length rows)) @ '' of ''
                                     @ str_int total_rows @ '' rows'',
                           show_header = True,
                           header_style = ''bold cyan'',
                           columns = [],
                           table_rows = []\<rparr>;
                     t1 = add_column ''Row'' ''dim'' (Some 4) t0;
                     t2 = (if has_header \<and> rows \<noteq> []
                           then header_table show_column_numbers num_columns rows t1
                           else plain_table show_column_numbers num_columns rows t1)
                 in (case console (Rendered t2) of
                       Some e \<Rightarrow> Inl e
                     | None \<Rightarrow> Inr (has_header, [Rendered t2]))))))"

subsection \<open>The specification's wording, for comparison\<close>

text \<open>
  Two rules as the specification words them, to be compared with the code above: the
  column reference with one optional leading marker removed, and the header test on
  the plain concatenation of the first row's cells.
\<close>

definition strip_one_marker :: "string \<Rightarrow> string" where
  "strip_one_marker s = (case s of [] \<Rightarrow> [] | c # cs \<Rightarrow> if c = CHR ''$'' then cs else s)"

definition column_reference_one_marker :: "nat \<Rightarrow> string \<Rightarrow> int \<Rightarrow> int option" where
  \<comment> \<open>The value the rule with one marker returns, \<open>None\<close> for no value.\<close>
  "column_reference_one_marker max_str_digits s n =
     (case py_int max_str_digits (strip_one_marker (str_strip s)) of
        Inl e \<Rightarrow> None
      | Inr v \<Rightarrow> if 1 \<le> v \<and> v \<le> n then Some v else None)"

definition header_by_concatenation :: "string list list \<Rightarrow> bool" where
  "header_by_concatenation rows =
     (case rows of
        first_row # _ # _ \<Rightarrow>
          list_ex (\<lambda>keyword. str_contains keyword (str_lower (concat first_row))) header_keywords
      | _ \<Rightarrow> False)"

section \<open>Properties\<close>

subsection \<open>The loops\<close>

lemma read_loop_unbounded:
  "max_rows = None \<or> max_rows = Some 0 \<Longrightarrow>
   read_loop max_rows idx recs ending rows =
     (case ending of None \<Rightarrow> Inr (rows @ map (map str_strip) recs) | Some e \<Rightarrow> Inl e)"
  by (induction recs arbitrary: idx rows) (auto simp: limit_reached_def split: option.splits)

lemma read_loop_bounded:
  "m \<noteq> 0 \<Longrightarrow>
   read_loop (Some m) idx recs None rows =
     Inr (rows @ map (map str_strip) (take (nat (m - idx)) recs))"
proof (induction recs arbitrary: idx rows)
  case Nil
  then show ?case by simp
next
  case (Cons r recs)
  show ?case
  proof (cases "idx \<ge> m")
    case True
    with Cons.prems show ?thesis by (simp add: limit_reached_def)
  next
    case False
    then have "nat (m - idx) = Suc (nat (m - (idx + 1)))" by simp
    with False Cons show ?thesis by (simp add: limit_reached_def)
  qed
qed

lemma read_loop_rows:
  "read_loop max_rows idx recs ending rows = Inr out \<Longrightarrow>
   \<exists>n. out = rows @ map (map str_strip) (take n recs)"
proof (induction recs arbitrary: idx rows)
  case Nil
  then show ?case by (auto split: option.splits)
next
  case (Cons r recs)
  show ?case
  proof (cases "limit_reached max_rows idx")
    case True
    with Cons.prems have "out = rows @ map (map str_strip) (take 0 (r # recs))" by simp
    then show ?thesis by blast
  next
    case False
    with Cons.prems have "read_loop max_rows (idx + 1) recs ending (rows @ [map str_strip r]) = Inr out"
      by simp
    from Cons.IH [OF this] obtain n where "out = (rows @ [map str_strip r]) @ map (map str_strip) (take n recs)" ..
    then have "out = rows @ map (map str_strip) (take (Suc n) (r # recs))" by simp
    then show ?thesis by blast
  qed
qed

lemma count_loop_total:
  "count_loop recs ending count =
     (case ending of None \<Rightarrow> Inr (count + int (length recs)) | Some e \<Rightarrow> Inl e)"
  by (induction recs arbitrary: count) (auto split: option.splits)

lemma strip_no_leading:
  "str_strip s \<noteq> [] \<Longrightarrow> \<not> isspace (hd (str_strip s))"
proof -
  assume ne: "str_strip s \<noteq> []"
  let ?t = "dropWhile isspace s"
  have t: "?t = str_strip s @ rev (takeWhile isspace (rev ?t))"
    unfolding str_strip_def
    by (metis rev_append rev_rev_ident takeWhile_dropWhile_id)
  with ne have "hd ?t = hd (str_strip s)" by (metis hd_append2)
  moreover from ne t have "?t \<noteq> []" by (metis Nil_is_append_conv)
  then have "\<not> isspace (hd ?t)" by (rule hd_dropWhile)
  ultimately show ?thesis by simp
qed

lemma strip_no_trailing:
  "str_strip s \<noteq> [] \<Longrightarrow> \<not> isspace (last (str_strip s))"
  unfolding str_strip_def by (simp add: last_rev hd_dropWhile)

lemma strip_decomposition:
  "\<exists>pre post. s = pre @ str_strip s @ post \<and> list_all isspace pre \<and> list_all isspace post"
proof -
  let ?t = "dropWhile isspace s"
  let ?pre = "takeWhile isspace s"
  let ?post = "rev (takeWhile isspace (rev ?t))"
  have t: "?t = str_strip s @ ?post"
    unfolding str_strip_def
    by (metis rev_append rev_rev_ident takeWhile_dropWhile_id)
  have "s = ?pre @ ?t" by simp
  with t have "s = ?pre @ str_strip s @ ?post" by simp
  moreover have "list_all isspace ?pre" by (simp add: list_all_iff) (meson set_takeWhileD)
  moreover have "list_all isspace ?post" by (simp add: list_all_iff) (meson set_takeWhileD)
  ultimately show ?thesis by blast
qed

lemma starts_with_prefix: "starts_with k s = (\<exists>ss. s = k @ ss)"
  by (induction k s rule: starts_with.induct) auto

lemma str_contains_substring: "str_contains k s = (\<exists>ps ss. s = ps @ k @ ss)"
proof (induction s)
  case Nil
  then show ?case by auto
next
  case (Cons c cs)
  show ?case
  proof
    assume "str_contains k (c # cs)"
    then consider "starts_with k (c # cs)" | "str_contains k cs" by auto
    then show "\<exists>ps ss. c # cs = ps @ k @ ss"
    proof cases
      case 1
      then obtain ss where "c # cs = [] @ k @ ss" by (auto simp: starts_with_prefix)
      then show ?thesis by blast
    next
      case 2
      with Cons obtain ps ss where "cs = ps @ k @ ss" by blast
      then have "c # cs = (c # ps) @ k @ ss" by simp
      then show ?thesis by blast
    qed
  next
    assume "\<exists>ps ss. c # cs = ps @ k @ ss"
    then obtain ps ss where eq: "c # cs = ps @ k @ ss" by blast
    show "str_contains k (c # cs)"
    proof (cases ps)
      case Nil
      with eq have "starts_with k (c # cs)" by (auto simp: starts_with_prefix)
      then show ?thesis by simp
    next
      case (Cons p ps')
      with eq have "cs = ps' @ k @ ss" by simp
      with Cons.IH have "str_contains k cs" by blast
      then show ?thesis by simp
    qed
  qed
qed

lemma py_int_raises_value_error: "py_int L s = Inl e \<Longrightarrow> e = ValueError"
  by (auto simp: py_int_def Let_def split: if_splits)

lemma max_of_Max:
  assumes "xs \<noteq> []"
  shows "max_of xs = Inr (Max (set xs))"
proof (cases xs)
  case Nil
  then show ?thesis using assms by simp
next
  case (Cons a list)
  then show ?thesis using Max.set_eq_fold [of a list] by simp
qed

lemmas validate_eval =
  validate_column_index_def Let_def str_lstrip_def str_strip_def isspace_def py_int_def
  int_space_def is_digit_def digit_val_def

lemma validate_accepts:
  "(\<exists>out. validate_column_index console L s n = Inr (Some v, out)) =
   (py_int L (str_lstrip ''$'' (str_strip s)) = Inr v \<and> 1 \<le> v \<and> v \<le> n)"
proof (cases "py_int L (str_lstrip ''$'' (str_strip s))")
  case (Inl e)
  then have "e = ValueError" by (rule py_int_raises_value_error)
  with Inl show ?thesis
    by (simp add: validate_column_index_def Let_def split: option.splits)
next
  case (Inr w)
  then show ?thesis
    by (auto simp: validate_column_index_def Let_def split: option.splits error.splits)
qed

lemma validate_out_of_range:
  assumes "py_int L (str_lstrip ''$'' (str_strip s)) = Inr v"
    and "\<not> (1 \<le> v \<and> v \<le> n)"
    and "console (Markup (out_of_range_markup v n)) = None"
  shows "validate_column_index console L s n = Inr (None, [Markup (out_of_range_markup v n)])"
  using assms by (simp add: validate_column_index_def Let_def)

lemma validate_invalid:
  assumes "py_int L (str_lstrip ''$'' (str_strip s)) = Inl e"
    and "console (Markup (invalid_number_markup (str_lstrip ''$'' (str_strip s)))) = None"
  shows "validate_column_index console L s n
           = Inr (None, [Markup (invalid_number_markup (str_lstrip ''$'' (str_strip s)))])"
proof -
  from assms(1) have "e = ValueError" by (rule py_int_raises_value_error)
  with assms show ?thesis by (simp add: validate_column_index_def Let_def)
qed

lemma validate_handler_raises:
  assumes "py_int L (str_lstrip ''$'' (str_strip s)) = Inl e"
    and "console (Markup (invalid_number_markup (str_lstrip ''$'' (str_strip s)))) = Some x"
  shows "validate_column_index console L s n = Inl x"
proof -
  from assms(1) have "e = ValueError" by (rule py_int_raises_value_error)
  with assms show ?thesis by (simp add: validate_column_index_def Let_def)
qed

lemma validate_accepted_examples:
  "validate_column_index console L ''2'' 5 = Inr (Some 2, [])"
  "validate_column_index console L ''$4'' 5 = Inr (Some 4, [])"
  "validate_column_index console L '' 3 '' 5 = Inr (Some 3, [])"
  by (simp_all add: validate_eval)

lemma markup_0: "out_of_range_markup 0 5 = ''[red]Column 0 is out of range (1-5)[/red]''"
  by code_simp

lemma markup_6: "out_of_range_markup 6 5 = ''[red]Column 6 is out of range (1-5)[/red]''"
  by code_simp

lemma rich_accepts_0: "rich_print (Markup ''[red]Column 0 is out of range (1-5)[/red]'') = None"
  by code_simp

lemma rich_accepts_6: "rich_print (Markup ''[red]Column 6 is out of range (1-5)[/red]'') = None"
  by code_simp

lemma rich_accepts_abc: "rich_print (Markup (invalid_number_markup ''abc'')) = None"
  by code_simp

lemma rich_accepts_decimal_point: "rich_print (Markup (invalid_number_markup ''1.5'')) = None"
  by code_simp

lemma rich_accepts_empty: "rich_print (Markup (invalid_number_markup [])) = None"
  by code_simp

lemma rich_accepts_warning:
  "rich_print (Markup ''[yellow]Warning: CSV file is empty[/yellow]'') = None"
  by code_simp

lemma rich_rejects_closing_tag: "rich_print (Markup (invalid_number_markup ''[/x]'')) = Some MarkupError"
  by code_simp

lemma validate_rejected_examples:
  "validate_column_index rich_print L ''0'' 5
     = Inr (None, [Markup ''[red]Column 0 is out of range (1-5)[/red]''])"
  "validate_column_index rich_print L ''6'' 5
     = Inr (None, [Markup ''[red]Column 6 is out of range (1-5)[/red]''])"
  "validate_column_index rich_print L ''abc'' 5
     = Inr (None, [Markup ''[red]Invalid column number: abc[/red]''])"
  "validate_column_index rich_print L ''1.5'' 5
     = Inr (None, [Markup ''[red]Invalid column number: 1.5[/red]''])"
  "validate_column_index rich_print L [] 5
     = Inr (None, [Markup ''[red]Invalid column number: [/red]''])"
proof -
  show "validate_column_index rich_print L ''0'' 5
     = Inr (None, [Markup ''[red]Column 0 is out of range (1-5)[/red]''])"
    by (simp add: validate_eval markup_0 rich_accepts_0)
  show "validate_column_index rich_print L ''6'' 5
     = Inr (None, [Markup ''[red]Column 6 is out of range (1-5)[/red]''])"
    by (simp add: validate_eval markup_6 rich_accepts_6)
  show "validate_column_index rich_print L ''abc'' 5
     = Inr (None, [Markup ''[red]Invalid column number: abc[/red]''])"
    using rich_accepts_abc by (simp add: validate_eval invalid_number_markup_def)
  show "validate_column_index rich_print L ''1.5'' 5
     = Inr (None, [Markup ''[red]Invalid column number: 1.5[/red]''])"
    using rich_accepts_decimal_point by (simp add: validate_eval invalid_number_markup_def)
  show "validate_column_index rich_print L [] 5
     = Inr (None, [Markup ''[red]Invalid column number: [/red]''])"
    using rich_accepts_empty by (simp add: validate_eval invalid_number_markup_def)
qed

lemma validate_zero_columns:
  "validate_column_index console L s 0 \<noteq> Inr (Some v, out)"
proof
  assume "validate_column_index console L s 0 = Inr (Some v, out)"
  then have "\<exists>out. validate_column_index console L s 0 = Inr (Some v, out)" by blast
  then have "1 \<le> v \<and> v \<le> 0" by (simp add: validate_accepts)
  then show False by linarith
qed

subsection \<open>Files that read without an error\<close>

lemma read_valid_unbounded:
  "fs file_path delimiter = Reader recs None \<Longrightarrow>
   read_csv_rows fs file_path delimiter None = Inr (map (map str_strip) recs)"
  by (simp add: read_csv_rows_def read_loop_unbounded)

lemma read_valid_zero:
  "fs file_path delimiter = Reader recs None \<Longrightarrow>
   read_csv_rows fs file_path delimiter (Some 0) = Inr (map (map str_strip) recs)"
  by (simp add: read_csv_rows_def read_loop_unbounded)

lemma read_valid_bounded:
  "fs file_path delimiter = Reader recs None \<Longrightarrow> m \<noteq> 0 \<Longrightarrow>
   read_csv_rows fs file_path delimiter (Some m) = Inr (map (map str_strip) (take (nat m) recs))"
  by (simp add: read_csv_rows_def read_loop_bounded)

lemma count_valid:
  "fs file_path delimiter = Reader recs None \<Longrightarrow>
   count_csv_rows fs file_path delimiter = Inr (int (length recs))"
  by (simp add: count_csv_rows_def count_loop_total)

lemma read_rows_origin:
  assumes "read_csv_rows fs file_path delimiter max_rows = Inr rows"
  shows "\<exists>recs ending. fs file_path delimiter = Reader recs ending \<and>
           rows = map (map str_strip) (take (length rows) recs)"
proof (cases "fs file_path delimiter")
  case (OpenError e)
  with assms show ?thesis by (simp add: read_csv_rows_def)
next
  case (Reader recs ending)
  with assms have "read_loop max_rows 0 recs ending [] = Inr rows"
    by (simp add: read_csv_rows_def)
  then obtain n where n: "rows = map (map str_strip) (take n recs)"
    using read_loop_rows by fastforce
  then have "length rows = min n (length recs)" by simp
  then have "take (length rows) recs = take n recs" by (simp add: min_def)
  with n Reader show ?thesis by simp
qed

lemma detect_valid:
  assumes "fs file_path delimiter = Reader recs None"
  shows "detect_header_row fs file_path delimiter =
           Inr (2 \<le> length recs \<and>
                (\<exists>keyword\<in>set header_keywords. \<exists>ps ss.
                   str_join '' '' (map str_lower (map str_strip (hd recs))) = ps @ keyword @ ss))"
proof -
  have rd: "read_csv_rows fs file_path delimiter (Some 5) = Inr (map (map str_strip) (take 5 recs))"
    using assms read_valid_bounded [of fs file_path delimiter recs 5] by simp
  show ?thesis
  proof (cases recs)
    case Nil
    with rd show ?thesis by (simp add: detect_header_row_def)
  next
    case (Cons r rest)
    show ?thesis
    proof (cases rest)
      case Nil
      with Cons rd show ?thesis by (simp add: detect_header_row_def)
    next
      case (Cons r2 rest2)
      with \<open>recs = r # rest\<close> rd show ?thesis
        by (simp add: detect_header_row_def list_ex_iff str_contains_substring)
    qed
  qed
qed

lemma column_count_valid:
  assumes "fs file_path delimiter = Reader recs None"
  shows "get_column_count fs file_path delimiter =
           Inr (if recs = [] then 0
                else Max ((\<lambda>row. int (length row)) ` set (take (min 5 (length recs)) recs)))"
proof -
  have rd: "read_csv_rows fs file_path delimiter (Some 5) = Inr (map (map str_strip) (take 5 recs))"
    using assms read_valid_bounded [of fs file_path delimiter recs 5] by simp
  show ?thesis
  proof (cases recs)
    case Nil
    with rd show ?thesis by (simp add: get_column_count_def)
  next
    case (Cons r rest)
    have t: "take (min 5 (length recs)) recs = take 5 recs"
      by (cases "5 \<le> length recs") (simp_all add: min_def)
    have "map (\<lambda>row. int (length row)) (map (map str_strip) (take 5 recs)) \<noteq> []"
      using Cons by simp
    from max_of_Max [OF this] Cons rd show ?thesis
      unfolding t by (simp add: get_column_count_def image_image o_def)
  qed
qed

subsection \<open>Decimal text is parsed back\<close>

lemma of_char_digit_char: "d < 10 \<Longrightarrow> (of_char (digit_char d) :: nat) = 48 + d"
  by (simp add: digit_char_def)

lemma is_digit_digit_char: "d < 10 \<Longrightarrow> is_digit (digit_char d)"
  by (simp add: is_digit_def of_char_digit_char)

lemma digit_val_digit_char: "d < 10 \<Longrightarrow> digit_val (digit_char d) = int d"
  by (simp add: digit_val_def of_char_digit_char)

lemma str_nat_digits: "str_nat n \<noteq> [] \<and> list_all is_digit (str_nat n)"
proof (induction n rule: str_nat.induct)
  case (1 n)
  show ?case
  proof (cases "n < 10")
    case True
    then show ?thesis by (simp add: str_nat.simps [of n] is_digit_digit_char)
  next
    case False
    with 1 show ?thesis by (simp add: str_nat.simps [of n] is_digit_digit_char)
  qed
qed

lemma str_nat_value: "foldl (\<lambda>acc c. 10 * acc + digit_val c) 0 (str_nat n) = int n"
proof (induction n rule: str_nat.induct)
  case (1 n)
  show ?case
  proof (cases "n < 10")
    case True
    then show ?thesis by (simp add: str_nat.simps [of n] digit_val_digit_char)
  next
    case False
    with 1 have "foldl (\<lambda>acc c. 10 * acc + digit_val c) 0 (str_nat (n div 10)) = int (n div 10)"
      by simp
    with False show ?thesis
      by (simp add: str_nat.simps [of n] digit_val_digit_char zdiv_int zmod_int)
  qed
qed

lemma digits_no_double_underscore: "list_all is_digit s \<Longrightarrow> \<not> double_underscore s"
  by (induction s rule: double_underscore.induct) (auto simp: is_digit_def)

lemma digit_not_space: "is_digit c \<Longrightarrow> \<not> isspace c \<and> \<not> int_space c \<and> c \<noteq> CHR ''$''
    \<and> c \<noteq> CHR ''+'' \<and> c \<noteq> CHR ''-'' \<and> c \<noteq> CHR ''_''"
  by (auto simp: is_digit_def isspace_def int_space_def Let_def)

lemma py_int_digits:
  assumes "s \<noteq> []" and "list_all is_digit s"
    and "length s \<le> 640 \<or> L = 0 \<or> length s \<le> L"
  shows "py_int L s = Inr (foldl (\<lambda>acc c. 10 * acc + digit_val c) 0 s)"
proof -
  from assms(1) obtain c cs where s: "s = c # cs" by (cases s) auto
  with assms(2) have c: "is_digit c" by simp
  have t: "dropWhile int_space s = s" using s c digit_not_space by simp
  have all: "\<forall>x\<in>set s. is_digit x \<or> x = CHR ''_''" using assms(2) by (simp add: list_all_iff)
  then have tw: "takeWhile (\<lambda>c. is_digit c \<or> c = CHR ''_'') s = s"
    and dw: "dropWhile (\<lambda>c. is_digit c \<or> c = CHR ''_'') s = []"
    by simp_all
  have f: "filter is_digit s = s" using assms(2) by (simp add: list_all_iff)
  have l: "last s \<noteq> CHR ''_''"
    using assms(1,2) digit_not_space by (metis last_in_set list_all_iff)
  have h: "hd s \<noteq> CHR ''_''" using s c digit_not_space by simp
  have du: "\<not> double_underscore s" using assms(2) by (rule digits_no_double_underscore)
  have sg: "(case s of [] \<Rightarrow> s | c # cs \<Rightarrow> if c = CHR ''+'' \<or> c = CHR ''-'' then cs else s) = s"
    using s c digit_not_space by simp
  have ng: "(case s of [] \<Rightarrow> False | c # x \<Rightarrow> c = CHR ''-'') = False"
    using s c digit_not_space by simp
  from assms(3) have lim: "\<not> (640 < length s \<and> 0 < L \<and> L < length s)" by auto
  show ?thesis
    unfolding py_int_def t Let_def sg ng tw dw f
    using assms(1) l h du lim by simp
qed

lemma strip_digits:
  assumes "s \<noteq> []" and "list_all is_digit s"
  shows "str_lstrip ''$'' (str_strip s) = s"
proof -
  from assms obtain c cs where s: "s = c # cs" by (cases s) auto
  with assms(2) have c: "is_digit c" by simp
  have d1: "dropWhile isspace s = s" using s c digit_not_space by simp
  have "is_digit (last s)" using assms by (metis last_in_set list_all_iff)
  then have "\<not> isspace (hd (rev s))" using assms(1) digit_not_space by (simp add: hd_rev)
  then have d2: "dropWhile isspace (rev s) = rev s" using assms(1) by (cases "rev s") auto
  have "str_strip s = s" by (simp add: str_strip_def d1 d2)
  then show ?thesis using s c digit_not_space by (simp add: str_lstrip_def)
qed

lemma validate_accepts_decimal:
  assumes "1 \<le> v" and "v \<le> n"
    and "length (str_int v) \<le> 640 \<or> L = 0 \<or> length (str_int v) \<le> L"
  shows "validate_column_index console L (str_int v) n = Inr (Some v, [])"
proof -
  from assms(1) have sv: "str_int v = str_nat (nat v)" by (simp add: str_int_def)
  have ne: "str_nat (nat v) \<noteq> []" and dg: "list_all is_digit (str_nat (nat v))"
    using str_nat_digits by simp_all
  have "py_int L (str_nat (nat v)) = Inr v"
    using py_int_digits [OF ne dg] assms(1,3) by (simp add: sv str_nat_value)
  then show ?thesis
    using assms(1,2) by (simp add: validate_column_index_def sv strip_digits [OF ne dg])
qed

subsection \<open>Evaluation on concrete files\<close>

lemmas reader_eval =
  read_csv_rows_def count_csv_rows_def limit_reached_def str_strip_def isspace_def

lemma str_lower_example: "str_lower ''Team ID'' = ''team id''"
  by code_simp

lemma str_int_example: "str_int 3 = ''3'' \<and> str_int 120 = ''120'' \<and> str_int (- 7) = ''-7''"
  by code_simp

section \<open>The claims\<close>

subsection \<open>C1: Column Index Validator\<close>

text \<open>
  C1, as the specification states it, has the validator strip whitespace, then \<^emph>\<open>one\<close>
  optional leading \<open>$\<close>, then parse. The code calls \<open>lstrip("$")\<close>, which removes every
  leading \<open>$\<close>: on \<open>"$$4"\<close> with 5 columns it returns 4, where the rule with one marker
  leaves \<open>"$4"\<close>, which is no integer, and returns no value.
\<close>

theorem C1_every_leading_marker_is_stripped:
  "validate_column_index rich_print 4300 ''$$4'' 5 = Inr (Some 4, []) \<and>
   column_reference_one_marker 4300 ''$$4'' 5 = None"
  by (simp add: validate_eval column_reference_one_marker_def strip_one_marker_def)

text \<open>
  C1 (amended): for every input string \<open>s\<close> and column count \<open>n\<close>, the Column Index
  Validator strips surrounding whitespace from \<open>s\<close>, then strips every leading \<open>$\<close>,
  then parses the remainder with \<open>int()\<close> in base 10. It returns an integer \<open>v\<close>
  exactly when the parse yields \<open>v\<close> and \<open>1 \<le> v \<le> n\<close>, and that integer is returned
  unchanged, with nothing printed. Otherwise it prints a diagnostic (out of range, or
  invalid column number) and, when the console renders that diagnostic, returns \<open>None\<close>.
  The decimal text of any \<open>v\<close> in \<open>[1, n]\<close> (within the interpreter's digit limit) is
  accepted as \<open>v\<close>. In particular \<open>"2"\<close>, \<open>"$4"\<close> and \<open>" 3 "\<close> with 5 columns give 2, 4
  and 3, and \<open>"0"\<close>, \<open>"6"\<close>, \<open>"abc"\<close>, \<open>"1.5"\<close> and \<open>""\<close> give \<open>None\<close>.
\<close>

theorem C1_validate_column_index:
  "(\<forall>v. (\<exists>out. validate_column_index console L s n = Inr (Some v, out)) =
        (py_int L (str_lstrip ''$'' (str_strip s)) = Inr v \<and> 1 \<le> v \<and> v \<le> n)) \<and>
   (\<forall>v. py_int L (str_lstrip ''$'' (str_strip s)) = Inr v \<and> \<not> (1 \<le> v \<and> v \<le> n) \<and>
        console (Markup (out_of_range_markup v n)) = None
        \<longrightarrow> validate_column_index console L s n
              = Inr (None, [Markup (out_of_range_markup v n)])) \<and>
   (\<forall>e. py_int L (str_lstrip ''$'' (str_strip s)) = Inl e \<and>
        console (Markup (invalid_number_markup (str_lstrip ''$'' (str_strip s)))) = None
        \<longrightarrow> validate_column_index console L s n
              = Inr (None, [Markup (invalid_number_markup (str_lstrip ''$'' (str_strip s)))])) \<and>
   (\<forall>v. 1 \<le> v \<and> v \<le> n \<and> (length (str_int v) \<le> 640 \<or> L = 0 \<or> length (str_int v) \<le> L)
        \<longrightarrow> validate_column_index console L (str_int v) n = Inr (Some v, [])) \<and>
   validate_column_index console L ''2'' 5 = Inr (Some 2, []) \<and>
   validate_column_index console L ''$4'' 5 = Inr (Some 4, []) \<and>
   validate_column_index console L '' 3 '' 5 = Inr (Some 3, []) \<and>
   validate_column_index rich_print L ''0'' 5
     = Inr (None, [Markup ''[red]Column 0 is out of range (1-5)[/red]'']) \<and>
   validate_column_index rich_print L ''6'' 5
     = Inr (None, [Markup ''[red]Column 6 is out of range (1-5)[/red]'']) \<and>
   validate_column_index rich_print L ''abc'' 5
     = Inr (None, [Markup ''[red]Invalid column number: abc[/red]'']) \<and>
   validate_column_index rich_print L ''1.5'' 5
     = Inr (None, [Markup ''[red]Invalid column number: 1.5[/red]'']) \<and>
   validate_column_index rich_print L [] 5
     = Inr (None, [Markup ''[red]Invalid column number: [/red]''])"
proof (intro conjI allI impI)
  show "(\<exists>out. validate_column_index console L s n = Inr (Some v, out)) =
        (py_int L (str_lstrip ''$'' (str_strip s)) = Inr v \<and> 1 \<le> v \<and> v \<le> n)" for v
    by (rule validate_accepts)
  show "validate_column_index console L s n = Inr (None, [Markup (out_of_range_markup v n)])"
    if "py_int L (str_lstrip ''$'' (str_strip s)) = Inr v \<and> \<not> (1 \<le> v \<and> v \<le> n) \<and>
        console (Markup (out_of_range_markup v n)) = None" for v
    using that validate_out_of_range [of L s v n console] by blast
  show "validate_column_index console L s n
          = Inr (None, [Markup (invalid_number_markup (str_lstrip ''$'' (str_strip s)))])"
    if "py_int L (str_lstrip ''$'' (str_strip s)) = Inl e \<and>
        console (Markup (invalid_number_markup (str_lstrip ''$'' (str_strip s)))) = None" for e
    using that validate_invalid [of L s e console n] by blast
  show "validate_column_index console L (str_int v) n = Inr (Some v, [])"
    if "1 \<le> v \<and> v \<le> n \<and> (length (str_int v) \<le> 640 \<or> L = 0 \<or> length (str_int v) \<le> L)"
    for v
    using that validate_accepts_decimal [of v n L console] by blast
qed (rule validate_accepted_examples validate_rejected_examples)+

theorem C1_witness:
  "validate_column_index rich_print 4300 ''3'' 5 = Inr (Some 3, []) \<and>
   validate_column_index rich_print 4300 ''$7'' 5
     = Inr (None, [Markup (out_of_range_markup 7 5)]) \<and>
   validate_column_index rich_print 4300 ''$7'' 5
     = Inr (None, [Markup ''[red]Column 7 is out of range (1-5)[/red]'']) \<and>
   validate_column_index rich_print 4300 ''x y'' 5
     = Inr (None, [Markup ''[red]Invalid column number: x y[/red]''])"
proof -
  have t: "str_int 3 = ''3''" using str_int_example by simp
  have p: "1 \<le> (3::int) \<and> 3 \<le> (5::int) \<and>
           (length (str_int 3) \<le> 640 \<or> (4300::nat) = 0 \<or> length (str_int 3) \<le> 4300)"
    by (simp add: t)
  have a: "validate_column_index rich_print 4300 (str_int 3) 5 = Inr (Some 3, [])"
    using C1_validate_column_index [of rich_print 4300 "''$7''" 5,
        THEN conjunct2, THEN conjunct2, THEN conjunct2, THEN conjunct1, rule_format, OF p] .
  have m: "out_of_range_markup 7 5 = ''[red]Column 7 is out of range (1-5)[/red]''"
    by code_simp
  have r: "rich_print (Markup ''[red]Column 7 is out of range (1-5)[/red]'') = None"
    by code_simp
  have q: "py_int 4300 (str_lstrip ''$'' (str_strip ''$7'')) = Inr 7 \<and> \<not> (1 \<le> (7::int) \<and> (7::int) \<le> 5) \<and>
           rich_print (Markup (out_of_range_markup 7 5)) = None"
    by (simp add: m r str_lstrip_def str_strip_def isspace_def py_int_def int_space_def
        is_digit_def digit_val_def)
  have b: "validate_column_index rich_print 4300 ''$7'' 5
             = Inr (None, [Markup (out_of_range_markup 7 5)])"
    using C1_validate_column_index [of rich_print 4300 "''$7''" 5,
        THEN conjunct2, THEN conjunct1, rule_format, OF q] .
  have i: "rich_print (Markup (invalid_number_markup ''x y'')) = None"
    by code_simp
  have u: "py_int 4300 (str_lstrip ''$'' (str_strip ''x y'')) = Inl ValueError \<and>
           rich_print (Markup (invalid_number_markup (str_lstrip ''$'' (str_strip ''x y'')))) = None"
    using i by (simp add: str_lstrip_def str_strip_def isspace_def py_int_def int_space_def
        is_digit_def digit_val_def)
  have c: "validate_column_index rich_print 4300 ''x y'' 5
             = Inr (None, [Markup (invalid_number_markup (str_lstrip ''$'' (str_strip ''x y'')))])"
    using C1_validate_column_index [of rich_print 4300 "''x y''" 5,
        THEN conjunct2, THEN conjunct2, THEN conjunct1, rule_format, OF u] .
  from a b c show ?thesis
    by (simp add: t m invalid_number_markup_def str_lstrip_def str_strip_def isspace_def)
qed

subsection \<open>C2: the row limit of the Row Reader\<close>

text \<open>
  C2 states that for every supplied \<open>max_rows\<close>, 0 included, the Row Reader produces at
  most \<open>max_rows\<close> rows. The loop tests \<open>max_rows and idx >= max_rows\<close>, and 0 is false
  in Python as \<open>None\<close> is: with \<open>max_rows = 0\<close> the reader returns every row of the
  file. Here a file of two records read with \<open>max_rows = 0\<close> yields both rows.
\<close>

theorem C2_max_rows_zero_reads_every_row:
  "read_csv_rows (\<lambda>p d. Reader [[''a'', ''b''], [''c'', ''d'']] None) ''teams.csv'' '','' (Some 0)
     = Inr [[''a'', ''b''], [''c'', ''d'']]"
  by (simp add: reader_eval)

subsection \<open>C3: Header Detector\<close>

text \<open>
  C3, as the specification states it, tests the keywords against the lower-cased
  \<^emph>\<open>concatenation\<close> of the first row's cells. The code joins the cells with single
  spaces (\<open>" ".join\<close>): a first row \<open>i,d\<close> gives the text \<open>"i d"\<close>, which holds no
  keyword, while the concatenation \<open>"id"\<close> does.
\<close>

theorem C3_cells_are_joined_with_spaces:
  "detect_header_row (\<lambda>p d. Reader [[''i'', ''d''], [''1'', ''2'']] None) ''teams.csv'' '',''
     = Inr False \<and>
   header_by_concatenation [[''i'', ''d''], [''1'', ''2'']]"
  by (simp add: detect_header_row_def read_csv_rows_def limit_reached_def str_strip_def isspace_def
      str_lower_def lower_char_def header_keywords_def header_by_concatenation_def)

text \<open>
  C3 (amended): for every file that reads without an error, the Header Detector returns
  false when the file has fewer than 2 rows; when it has at least 2 rows it returns true
  if and only if some keyword of the fixed set occurs as a substring of the text made of
  the first row's trimmed, lower-cased cells joined by single spaces. A file whose first
  row is \<open>id,name,affiliation,country\<close> with at least 2 rows yields true.
\<close>

theorem C3_detect_header_row:
  assumes "fs file_path delimiter = Reader recs None"
  shows "(length recs < 2 \<longrightarrow> detect_header_row fs file_path delimiter = Inr False) \<and>
         detect_header_row fs file_path delimiter =
           Inr (2 \<le> length recs \<and>
                (\<exists>keyword\<in>set header_keywords. \<exists>ps ss.
                   str_join '' '' (map str_lower (map str_strip (hd recs))) = ps @ keyword @ ss)) \<and>
         (\<forall>second rest. recs = [''id'', ''name'', ''affiliation'', ''country''] # second # rest
            \<longrightarrow> detect_header_row fs file_path delimiter = Inr True)"
proof (intro conjI allI impI)
  note d = detect_valid [of fs file_path delimiter recs, OF assms]
  show "detect_header_row fs file_path delimiter =
           Inr (2 \<le> length recs \<and>
                (\<exists>keyword\<in>set header_keywords. \<exists>ps ss.
                   str_join '' '' (map str_lower (map str_strip (hd recs))) = ps @ keyword @ ss))"
    by (rule d)
  show "detect_header_row fs file_path delimiter = Inr False" if "length recs < 2"
    using that d by simp
  show "detect_header_row fs file_path delimiter = Inr True"
    if "recs = [''id'', ''name'', ''affiliation'', ''country''] # second # rest" for second rest
    using that d
    by (simp add: str_contains_substring [symmetric] header_keywords_def str_lower_def
        lower_char_def str_strip_def isspace_def)
qed

theorem C3_witness:
  "detect_header_row
     (\<lambda>p d. Reader [[''team id'', '' name ''], [''1'', ''Team A'']] None) ''teams.csv'' '',''
     = Inr True"
  using C3_detect_header_row
    [of "\<lambda>p d. Reader [[''team id'', '' name ''], [''1'', ''Team A'']] None" "''teams.csv''" "'',''"
        "[[''team id'', '' name ''], [''1'', ''Team A'']]"]
  by (simp add: str_contains_substring [symmetric] header_keywords_def str_lower_def
      lower_char_def str_strip_def isspace_def)

subsection \<open>C4: Auto Range Detector\<close>

text \<open>
  C4: for every file that reads without an error, the Auto Range Detector returns the
  pair (2 if the Header Detector returns true, else 1; the Row Counter's total row
  count); on an empty file it returns \<open>(1, 0)\<close>, a range with \<open>start_row > end_row\<close>
  and not an error.
\<close>

theorem C4_auto_detect_data_range:
  assumes "fs file_path delimiter = Reader recs None"
  shows "count_csv_rows fs file_path delimiter = Inr (int (length recs)) \<and>
         (\<exists>has_header.
            detect_header_row fs file_path delimiter = Inr has_header \<and>
            auto_detect_data_range fs file_path delimiter
              = Inr (if has_header then 2 else 1, int (length recs))) \<and>
         (recs = [] \<longrightarrow> auto_detect_data_range fs file_path delimiter = Inr (1, 0))"
proof -
  note d = detect_valid [of fs file_path delimiter recs, OF assms]
  note c = count_valid [of fs file_path delimiter recs, OF assms]
  from d obtain h where h: "detect_header_row fs file_path delimiter = Inr h" by blast
  have "recs = [] \<longrightarrow> \<not> h" using d h by auto
  with h c show ?thesis by (auto simp: auto_detect_data_range_def)
qed

theorem C4_witness:
  "auto_detect_data_range (\<lambda>p d. Reader [] None) ''teams.csv'' '','' = Inr (1, 0) \<and>
   count_csv_rows (\<lambda>p d. Reader [] None) ''teams.csv'' '','' = Inr 0"
  using C4_auto_detect_data_range [of "\<lambda>p d. Reader [] None" "''teams.csv''" "'',''" "[]"]
  by simp

subsection \<open>C5: Column Counter\<close>

text \<open>
  C5: for every file with \<open>N\<close> records that reads without an error, the Column Counter
  returns the maximum cell count among the first \<open>min(5, N)\<close> rows, and 0 when there is
  none; the ragged file \<open>a,b / c,d,e,f / g,h,i\<close> yields 4.
\<close>

theorem C5_get_column_count:
  assumes "fs file_path delimiter = Reader recs None"
  shows "get_column_count fs file_path delimiter =
           Inr (if recs = [] then 0
                else Max ((\<lambda>row. int (length row)) ` set (take (min 5 (length recs)) recs))) \<and>
         (recs = [[''a'', ''b''], [''c'', ''d'', ''e'', ''f''], [''g'', ''h'', ''i'']]
            \<longrightarrow> get_column_count fs file_path delimiter = Inr 4)"
proof (intro conjI impI)
  note cc = column_count_valid [of fs file_path delimiter recs, OF assms]
  show "get_column_count fs file_path delimiter =
           Inr (if recs = [] then 0
                else Max ((\<lambda>row. int (length row)) ` set (take (min 5 (length recs)) recs)))"
    by (rule cc)
  show "get_column_count fs file_path delimiter = Inr 4"
    if "recs = [[''a'', ''b''], [''c'', ''d'', ''e'', ''f''], [''g'', ''h'', ''i'']]"
    using that cc by simp
qed

theorem C5_witness:
  "get_column_count
     (\<lambda>p d. Reader [[''a'', ''b''], [''c'', ''d'', ''e'', ''f''], [''g'', ''h'', ''i'']] None)
     ''ragged.csv'' '','' = Inr 4"
  using C5_get_column_count
    [of "\<lambda>p d. Reader [[''a'', ''b''], [''c'', ''d'', ''e'', ''f''], [''g'', ''h'', ''i'']] None"
        "''ragged.csv''" "'',''" "[[''a'', ''b''], [''c'', ''d'', ''e'', ''f''], [''g'', ''h'', ''i'']]"]
  by simp

subsection \<open>C6: Row Counter\<close>

text \<open>
  C6: for every file with \<open>N\<close> records that reads without an error, the Row Counter
  returns exactly \<open>N\<close>, whatever \<open>N\<close> is; an empty file yields 0; and the Row Reader
  called with \<open>max_rows = N\<close> returns \<open>N\<close> rows, the whole content of the file (each
  cell trimmed).
\<close>

theorem C6_count_and_full_read:
  assumes "fs file_path delimiter = Reader recs None"
  shows "count_csv_rows fs file_path delimiter = Inr (int (length recs)) \<and>
         read_csv_rows fs file_path delimiter (Some (int (length recs)))
           = Inr (map (map str_strip) recs) \<and>
         length (map (map str_strip) recs) = length recs \<and>
         (recs = [] \<longrightarrow> count_csv_rows fs file_path delimiter = Inr 0)"
proof -
  have c: "count_csv_rows fs file_path delimiter = Inr (int (length recs))"
    using assms by (rule count_valid)
  have r: "read_csv_rows fs file_path delimiter (Some (int (length recs)))
             = Inr (map (map str_strip) recs)"
  proof (cases "recs = []")
    case True
    with assms show ?thesis using read_valid_zero [of fs file_path delimiter recs] by simp
  next
    case False
    then have "int (length recs) \<noteq> 0" by simp
    with assms show ?thesis
      using read_valid_bounded [of fs file_path delimiter recs "int (length recs)"] by simp
  qed
  from c r show ?thesis by simp
qed

theorem C6_witness:
  "count_csv_rows (\<lambda>p d. Reader [[''id'', ''name''], [''1'', '' Team A'']] None) ''teams.csv'' '',''
     = Inr 2 \<and>
   read_csv_rows (\<lambda>p d. Reader [[''id'', ''name''], [''1'', '' Team A'']] None) ''teams.csv'' '',''
       (Some 2)
     = Inr [[''id'', ''name''], [''1'', ''Team A'']]"
  using C6_count_and_full_read
    [of "\<lambda>p d. Reader [[''id'', ''name''], [''1'', '' Team A'']] None" "''teams.csv''" "'',''"
        "[[''id'', ''name''], [''1'', '' Team A'']]"]
  by (simp add: str_strip_def isspace_def)

subsection \<open>C7: cells are trimmed\<close>

text \<open>
  C7: whenever the Row Reader returns rows, each row is a record of the file with
  \<open>strip\<close> applied to every cell, and every cell is trimmed: it is empty or neither
  begins nor ends with whitespace, and it differs from the raw field by whitespace
  removed at the two ends only. A record with the raw fields \<open>"  Team A  "\<close> and
  \<open>" Uni A "\<close> is read as \<open>["Team A", "Uni A"]\<close>.
\<close>

theorem C7_cells_are_trimmed:
  assumes "read_csv_rows fs file_path delimiter max_rows = Inr rows"
  shows "(\<exists>recs ending. fs file_path delimiter = Reader recs ending \<and>
            rows = map (map str_strip) (take (length rows) recs)) \<and>
         (\<forall>row\<in>set rows. \<forall>cell\<in>set row.
            cell = [] \<or> (\<not> isspace (hd cell) \<and> \<not> isspace (last cell))) \<and>
         (\<forall>raw. \<exists>pre post. raw = pre @ str_strip raw @ post \<and>
            list_all isspace pre \<and> list_all isspace post) \<and>
         map str_strip [''  Team A  '', '' Uni A ''] = [''Team A'', ''Uni A'']"
proof (intro conjI)
  from assms obtain recs ending where
    o: "fs file_path delimiter = Reader recs ending"
       "rows = map (map str_strip) (take (length rows) recs)"
    using read_rows_origin by blast
  then show "\<exists>recs ending. fs file_path delimiter = Reader recs ending \<and>
            rows = map (map str_strip) (take (length rows) recs)" by blast
  show "\<forall>row\<in>set rows. \<forall>cell\<in>set row.
          cell = [] \<or> (\<not> isspace (hd cell) \<and> \<not> isspace (last cell))"
  proof (intro ballI)
    fix row cell assume rc: "row \<in> set rows" "cell \<in> set row"
    from rc(1) o(2) have "row \<in> set (map (map str_strip) (take (length rows) recs))" by simp
    then obtain r where "row = map str_strip r" by auto
    with rc(2) obtain raw where "cell = str_strip raw" by auto
    then show "cell = [] \<or> (\<not> isspace (hd cell) \<and> \<not> isspace (last cell))"
      using strip_no_leading [of raw] strip_no_trailing [of raw] by auto
  qed
  show "\<forall>raw. \<exists>pre post. raw = pre @ str_strip raw @ post \<and>
            list_all isspace pre \<and> list_all isspace post"
    using strip_decomposition by simp
  show "map str_strip [''  Team A  '', '' Uni A ''] = [''Team A'', ''Uni A'']"
    by (simp add: str_strip_def isspace_def)
qed

theorem C7_witness:
  "read_csv_rows (\<lambda>p d. Reader [[''  Team A  '', '' Uni A '']] None) ''teams.csv'' '','' None
     = Inr [[''Team A'', ''Uni A'']] \<and>
   \<not> isspace (hd ''Team A'') \<and> \<not> isspace (last ''Team A'') \<and>
   \<not> isspace (hd ''Uni A'') \<and> \<not> isspace (last ''Uni A'')"
proof -
  have h: "read_csv_rows (\<lambda>p d. Reader [[''  Team A  '', '' Uni A '']] None) ''teams.csv'' '','' None
     = Inr [[''Team A'', ''Uni A'']]"
    by (simp add: reader_eval)
  from C7_cells_are_trimmed [OF h] have
    "\<forall>row\<in>set [[''Team A'', ''Uni A'']]. \<forall>cell\<in>set row.
       cell = [] \<or> (\<not> isspace (hd cell) \<and> \<not> isspace (last cell))"
    by (rule conjunct1 [OF conjunct2])
  with h show ?thesis by simp
qed

subsection \<open>C8: preview of an empty file\<close>

text \<open>
  C8: on a file with no record, for every delimiter, row limit, column-number flag and
  header-flag override (an override of true included), the Preview Renderer does not
  raise: it prints the notice that the file is empty, which the console renders, and
  returns false.
\<close>

theorem C8_preview_of_empty_file:
  assumes "fs file_path delimiter = Reader [] None"
  shows "preview_csv rich_print fs file_path delimiter max_rows show_column_numbers has_header
           = Inr (False, [Markup ''[yellow]Warning: CSV file is empty[/yellow]''])"
proof -
  have r: "read_csv_rows fs file_path delimiter (Some max_rows) = Inr []"
    using assms by (simp add: read_csv_rows_def)
  have c: "count_csv_rows fs file_path delimiter = Inr 0"
    using assms by (simp add: count_csv_rows_def)
  have d: "detect_header_row fs file_path delimiter = Inr False"
    using assms by (simp add: detect_header_row_def read_csv_rows_def)
  show ?thesis
    by (cases has_header) (simp_all add: preview_csv_def r c d rich_accepts_warning)
qed

theorem C8_witness:
  "preview_csv rich_print (\<lambda>p d. Reader [] None) ''empty.csv'' '','' 10 True (Some True)
     = Inr (False, [Markup ''[yellow]Warning: CSV file is empty[/yellow]''])"
  using C8_preview_of_empty_file [of "\<lambda>p d. Reader [] None" "''empty.csv''" "'',''" 10 True "Some True"]
  by simp

subsection \<open>C9: no column of an empty file is valid\<close>

text \<open>
  C9 states that with a column count of 0, the count the Column Counter reports for an
  empty file, the Column Index Validator returns \<open>None\<close> for every input string. The
  handler of the validator puts the user's text into the markup it prints: for the
  input \<open>[/x]\<close> the text is \<open>[red]Invalid column number: [/x][/red]\<close>, whose closing
  tag \<open>[/x]\<close> matches no open tag, and the exception of \<open>console.print\<close> leaves the
  function where \<open>None\<close> was to be returned.
\<close>

theorem C9_closing_tag_in_input_raises:
  "validate_column_index rich_print 4300 ''[/x]'' 0 = Inl MarkupError \<and>
   get_column_count (\<lambda>p d. Reader [] None) ''empty.csv'' '','' = Inr 0"
proof -
  have "py_int 4300 (str_lstrip ''$'' (str_strip ''[/x]'')) = Inl ValueError"
    by (simp add: str_lstrip_def str_strip_def isspace_def py_int_def int_space_def is_digit_def)
  moreover have "str_lstrip ''$'' (str_strip ''[/x]'') = ''[/x]''"
    by (simp add: str_lstrip_def str_strip_def isspace_def)
  ultimately have "validate_column_index rich_print 4300 ''[/x]'' 0 = Inl MarkupError"
    using validate_handler_raises [of 4300 "''[/x]''" ValueError rich_print MarkupError 0]
      rich_rejects_closing_tag by simp
  then show ?thesis by (simp add: get_column_count_def read_csv_rows_def)
qed

subsection \<open>C10: a bounded read is a prefix of the full read\<close>

text \<open>
  C10: for every file with \<open>N\<close> records that reads without an error and every bound
  \<open>k \<ge> 1\<close>, the Row Reader with \<open>max_rows = k\<close> returns the first \<open>min(k, N)\<close> rows of
  what it returns with no bound.
\<close>

theorem C10_bounded_read_is_prefix:
  assumes "fs file_path delimiter = Reader recs None" and "1 \<le> k"
  shows "\<exists>full. read_csv_rows fs file_path delimiter None = Inr full \<and>
           length full = length recs \<and>
           read_csv_rows fs file_path delimiter (Some k)
             = Inr (take (min (nat k) (length recs)) full)"
proof -
  from assms(2) have "k \<noteq> 0" by simp
  with assms(1) have "read_csv_rows fs file_path delimiter (Some k)
      = Inr (map (map str_strip) (take (nat k) recs))"
    using read_valid_bounded [of fs file_path delimiter recs k] by simp
  moreover have "take (nat k) recs = take (min (nat k) (length recs)) recs"
    by (cases "nat k \<le> length recs") (simp_all add: min_def)
  moreover have "read_csv_rows fs file_path delimiter None = Inr (map (map str_strip) recs)"
    using assms(1) by (rule read_valid_unbounded)
  ultimately show ?thesis by (simp add: take_map)
qed

theorem C10_witness:
  "read_csv_rows (\<lambda>p d. Reader [[''a''], [''b''], [''c'']] None) ''teams.csv'' '','' (Some 2)
     = Inr [[''a''], [''b'']] \<and>
   read_csv_rows (\<lambda>p d. Reader [[''a''], [''b''], [''c'']] None) ''teams.csv'' '','' None
     = Inr [[''a''], [''b''], [''c'']]"
  using C10_bounded_read_is_prefix
    [of "\<lambda>p d. Reader [[''a''], [''b''], [''c'']] None" "''teams.csv''" "'',''"
        "[[''a''], [''b''], [''c'']]" 2]
  by (simp add: reader_eval)

end
